theory Spec2Isabelle
  imports Complex_Main "HOL-Library.List_Lexorder"
begin

section \<open>Python values used by the pipeline\<close>

text \<open>
  A Python \<open>str\<close> is a sequence of Unicode code points, and \<open>len\<close> counts code points.
  The texts of this pipeline are Russian, so a string is modelled as a list of code points
  (natural numbers), not as a list of 8-bit characters. Lists are ordered
  lexicographically, as Python compares strings.
\<close>

type_synonym ustr = "nat list"

definition ascii :: "string \<Rightarrow> ustr" where
  "ascii s = map of_char s"

text \<open>The code points for which \<open>str.isspace\<close> holds; \<open>str.strip()\<close> and
  \<open>str.split()\<close> without arguments use the same set.\<close>

definition isspace :: "nat \<Rightarrow> bool" where
  "isspace c \<longleftrightarrow> c \<in> set [9, 10, 11, 12, 13, 28, 29, 30, 31, 32, 133, 160, 5760,
     8192, 8193, 8194, 8195, 8196, 8197, 8198, 8199, 8200, 8201, 8202,
     8232, 8233, 8239, 8287, 12288]"

definition str_strip :: "ustr \<Rightarrow> ustr" where
  "str_strip s = rev (dropWhile isspace (rev (dropWhile isspace s)))"

text \<open>\<open>s.split()\<close>: the maximal runs of non-whitespace characters, left to right.
  The first argument is the word being read.\<close>

fun split_aux :: "ustr \<Rightarrow> ustr \<Rightarrow> ustr list" where
  "split_aux cur [] = (if cur = [] then [] else [cur])"
| "split_aux cur (c # cs) =
     (if isspace c then (if cur = [] then split_aux [] cs else cur # split_aux [] cs)
      else split_aux (cur @ [c]) cs)"

definition str_split :: "ustr \<Rightarrow> ustr list" where
  "str_split s = split_aux [] s"


text \<open>\<open>int(x)\<close> on a float truncates towards zero.\<close>

definition py_int :: "real \<Rightarrow> int" where
  "py_int x = (if 0 \<le> x then \<lfloor>x\<rfloor> else \<lceil>x\<rceil>)"

text \<open>\<open>str(n)\<close> for a non-negative integer, as an f-string renders a row index.\<close>

fun str_nat :: "nat \<Rightarrow> ustr" where
  "str_nat n = (if n < 10 then [48 + n] else str_nat (n div 10) @ [48 + n mod 10])"

text \<open>The values of a metrics dictionary, and the dictionary itself with its keys in
  insertion order.\<close>

datatype pyval = PyInt int | PyFloat real

type_synonym metrics = "(string \<times> pyval) list"

text \<open>The exceptions the model distinguishes.\<close>

datatype exn = FileNotFoundError | KeyError | ReadError | ExportError | ModelError

section \<open>Configuration (utils/config.py)\<close>

definition MIN_SEGMENT_DURATION :: real where
  "MIN_SEGMENT_DURATION = 0.5"

definition MAX_SUMMARY_INPUT_LENGTH :: nat where
  "MAX_SUMMARY_INPUT_LENGTH = 2000"

section \<open>Tables\<close>

text \<open>
  Each stage's table is a list of rows. The later tables extend the earlier ones by
  columns, which the records mirror. Times are floats in the source; they are modelled
  as real numbers, so rounding and NaN are outside the model.
\<close>

record speaker_row =
  speaker :: ustr

record diar_row = speaker_row +
  start_time :: real
  end_time :: real
  duration :: real

record asr_row = diar_row +
  row_text :: ustr
  word_count :: nat

record corr_row = asr_row +
  corrected_text :: ustr

record summary_row = speaker_row +
  original_text_length :: nat
  summary_length :: nat
  compression_ratio :: real
  summary :: ustr

text \<open>A segment of recognition: the diarization row, its slice of the audio and the
  row's index in the table.\<close>

record 'seg segment = diar_row +
  audio_segment :: 'seg
  segment_index :: nat

text \<open>A speaker turn as the diarization model yields it (\<open>turn.start\<close>, \<open>turn.end\<close>).\<close>

record turn =
  turn_start :: real
  turn_end :: real

text \<open>
  The files of a run. A CSV file holds the table that was written to it; reading it
  back gives that table. A temporary WAV file holds the exported audio segment, or
  is what a failed export left behind.
\<close>

datatype 'seg file_content =
    Wav 'seg
  | PartialWav
  | DiarizationCsv "diar_row list"
  | AsrCsv "asr_row list"
  | CorrectionCsv "corr_row list"
  | SummarizationCsv "summary_row list"
  | MinutesTxt ustr
  | MetricsJson "(string \<times> metrics) list"

type_synonym 'seg fs = "ustr \<rightharpoonup> 'seg file_content"

text \<open>\<open>df.sort_values("start_time").reset_index(drop=True)\<close>. Pandas does not promise
  the order of rows with equal keys; the model takes the stable order, and the theorems
  below use only that the result is sorted and holds the same rows.\<close>

definition sort_values_start_time ::
  "('a diar_row_scheme) list \<Rightarrow> ('a diar_row_scheme) list" where
  "sort_values_start_time df = sort_key start_time df"

text \<open>\<open>df[col].nunique()\<close> and \<open>df[col].max()\<close> on a non-empty column.\<close>

definition nunique :: "'a list \<Rightarrow> nat" where
  "nunique xs = length (remdups xs)"

definition column_max :: "real list \<Rightarrow> real" where
  "column_max xs = fold max (tl xs) (hd xs)"

section \<open>Diarization stage (test\_models/test\_diarization.py)\<close>

text \<open>The loop over \<open>itertracks(yield_label=True)\<close>: each item is a turn and its
  speaker label.\<close>

fun diarization_segments :: "(turn \<times> ustr) list \<Rightarrow> diar_row list" where
  "diarization_segments [] = []"
| "diarization_segments ((t, sp) # rest) =
     (if turn_end t - turn_start t < MIN_SEGMENT_DURATION then diarization_segments rest
      else \<lparr>speaker = sp, start_time = turn_start t, end_time = turn_end t,
             duration = turn_end t - turn_start t\<rparr> # diarization_segments rest)"

text \<open>\<open>perform_diarization\<close>: \<open>tracks\<close> is what the diarization model yields for the
  audio file, \<open>execution_time\<close> the measured wall time. The result is the returned
  data frame, the metrics and the file system after the call.\<close>

definition perform_diarization ::
  "(turn \<times> ustr) list \<Rightarrow> real \<Rightarrow> ustr \<Rightarrow> 'seg fs
     \<Rightarrow> (diar_row list \<times> metrics) \<times> 'seg fs" where
  "perform_diarization tracks execution_time output_csv_path fs =
     (let segments = diarization_segments tracks in
      if segments \<noteq> [] then
        (let results_dataframe = sort_values_start_time segments;
             fs' = fs(output_csv_path \<mapsto> DiarizationCsv results_dataframe);
             metrics = [(''execution_time'', PyFloat execution_time),
                        (''segments_count'', PyInt (int (length results_dataframe))),
                        (''speakers_count'', PyInt (int (nunique (map speaker results_dataframe)))),
                        (''audio_duration'', PyFloat (column_max (map end_time results_dataframe)))]
         in ((results_dataframe, metrics), fs'))
      else (([], [(''execution_time'', PyFloat execution_time), (''segments_count'', PyInt 0)]), fs))"

section \<open>Recognition stage (test\_models/test\_asr.py)\<close>

text \<open>\<open>pd.read_csv\<close> as a stage uses it: the table of the columns the stage reads, or the
  exception raised. A table of a later stage still has the columns; a table without
  them raises \<open>KeyError\<close> where the stage first reads a missing column (for a stage that
  reads columns row by row, only when there is a row); any other file is reported as
  \<open>ReadError\<close>.\<close>

definition read_diarization_csv :: "'seg fs \<Rightarrow> ustr \<Rightarrow> exn + diar_row list" where
  "read_diarization_csv fs path =
     (case fs path of
        None \<Rightarrow> Inl FileNotFoundError
      | Some (DiarizationCsv df) \<Rightarrow> Inr df
      | Some (AsrCsv df) \<Rightarrow> Inr (map diar_row.truncate df)
      | Some (CorrectionCsv df) \<Rightarrow> Inr (map diar_row.truncate df)
      | Some (SummarizationCsv df) \<Rightarrow> (if df = [] then Inr [] else Inl KeyError)
      | Some _ \<Rightarrow> Inl ReadError)"

text \<open>\<open>extract_audio_segments\<close>: \<open>audio\<close> is the slicing of the loaded audio,
  \<open>audio a b\<close> standing for \<open>audio[a:b]\<close> with both bounds in milliseconds.\<close>

definition extract_audio_segments ::
  "(int \<Rightarrow> int \<Rightarrow> 'seg) \<Rightarrow> diar_row list \<Rightarrow> 'seg segment list" where
  "extract_audio_segments audio diarization_dataframe =
     map (\<lambda>(index, row).
            (let start_ms = py_int (start_time row * 1000);
                 end_ms = py_int (end_time row * 1000);
                 segment_audio = audio start_ms end_ms
             in \<lparr>speaker = speaker row, start_time = start_time row, end_time = end_time row,
                  duration = duration row, audio_segment = segment_audio,
                  segment_index = index\<rparr>))
         (enumerate 0 diarization_dataframe)"

text \<open>How \<open>audio_segment.export(temp_file, format="wav")\<close> can end: the file is
  written, or an exception is raised, with the file left behind or not.\<close>

datatype export_result = Exported | ExportFailed bool

definition temp_file_name :: "'seg segment \<Rightarrow> ustr" where
  "temp_file_name segment =
     ascii ''temp_'' @ speaker segment @ ascii ''_'' @ str_nat (segment_index segment)
       @ ascii ''.wav''"

text \<open>The body of the \<open>try\<close> block for one segment. \<open>asr_pipeline\<close> stands for the
  call of the model on the exported file and the read of its \<open>"text"\<close> entry: it
  gives the raw text or raises. The result is the row to append (\<open>None\<close>: no speech
  detected) or the exception raised, and the file system at that point.\<close>

definition transcribe_try ::
  "(ustr \<Rightarrow> 'seg \<Rightarrow> export_result) \<Rightarrow> ('seg \<Rightarrow> exn + ustr) \<Rightarrow> 'seg segment \<Rightarrow> ustr \<Rightarrow> 'seg fs
     \<Rightarrow> (exn + asr_row option) \<times> 'seg fs" where
  "transcribe_try export asr_pipeline segment temp_file fs =
     (case export temp_file (audio_segment segment) of
        ExportFailed left_behind \<Rightarrow>
          (Inl ExportError,
           if left_behind then fs(temp_file \<mapsto> PartialWav) else fs)
      | Exported \<Rightarrow>
          (let fs1 = fs(temp_file \<mapsto> Wav (audio_segment segment)) in
           case asr_pipeline (audio_segment segment) of
             Inl error \<Rightarrow> (Inl error, fs1)
           | Inr raw \<Rightarrow>
               (let text = str_strip raw in
                if text \<noteq> [] \<and> text \<notin> set [[], ascii ''.'', ascii ''...''] then
                  (Inr (Some \<lparr>speaker = speaker segment, start_time = start_time segment,
                               end_time = end_time segment, duration = duration segment,
                               row_text = text, word_count = length (str_split text)\<rparr>), fs1)
                else (Inr None, fs1))))"

text \<open>One iteration of the loop of \<open>transcribe_audio_segments\<close>: the \<open>try\<close> block, the
  \<open>except Exception\<close> handler, which only logs, and the \<open>finally\<close> block, which removes
  the temporary file if it exists.\<close>

definition transcribe_segment ::
  "(ustr \<Rightarrow> 'seg \<Rightarrow> export_result) \<Rightarrow> ('seg \<Rightarrow> exn + ustr) \<Rightarrow> 'seg segment
     \<Rightarrow> asr_row list \<times> 'seg fs \<Rightarrow> asr_row list \<times> 'seg fs" where
  "transcribe_segment export asr_pipeline segment state =
     (let results = fst state; fs = snd state;
          temp_file = temp_file_name segment;
          attempt = transcribe_try export asr_pipeline segment temp_file fs;
          results' = (case fst attempt of
                        Inr (Some segment_result) \<Rightarrow> results @ [segment_result]
                      | Inr None \<Rightarrow> results
                      | Inl error \<Rightarrow> results);
          fs1 = snd attempt;
          fs2 = (if temp_file \<in> dom fs1 then fs1(temp_file := None) else fs1)
      in (results', fs2))"

definition transcribe_audio_segments ::
  "(ustr \<Rightarrow> 'seg \<Rightarrow> export_result) \<Rightarrow> ('seg \<Rightarrow> exn + ustr) \<Rightarrow> 'seg segment list \<Rightarrow> 'seg fs
     \<Rightarrow> asr_row list \<times> 'seg fs" where
  "transcribe_audio_segments export asr_pipeline segments fs =
     fold (transcribe_segment export asr_pipeline) segments ([], fs)"

definition perform_speech_recognition ::
  "(int \<Rightarrow> int \<Rightarrow> 'seg) \<Rightarrow> (ustr \<Rightarrow> 'seg \<Rightarrow> export_result) \<Rightarrow> ('seg \<Rightarrow> exn + ustr) \<Rightarrow> real
     \<Rightarrow> ustr \<Rightarrow> ustr \<Rightarrow> 'seg fs \<Rightarrow> exn + ((asr_row list \<times> metrics) \<times> 'seg fs)" where
  "perform_speech_recognition audio export asr_pipeline execution_time
       diarization_csv_path output_csv_path fs =
     (case read_diarization_csv fs diarization_csv_path of
        Inl error \<Rightarrow> Inl error
      | Inr diarization_dataframe \<Rightarrow>
          (let audio_segments = extract_audio_segments audio diarization_dataframe;
               transcribed = transcribe_audio_segments export asr_pipeline audio_segments fs;
               transcription_results = fst transcribed;
               fs1 = snd transcribed
           in if transcription_results \<noteq> [] then
                (let results_dataframe = sort_values_start_time transcription_results;
                     fs2 = fs1(output_csv_path \<mapsto> AsrCsv results_dataframe);
                     metrics =
                       [(''execution_time'', PyFloat execution_time),
                        (''segments_processed'', PyInt (int (length audio_segments))),
                        (''segments_with_speech'', PyInt (int (length results_dataframe))),
                        (''success_rate'',
                           PyFloat (if length audio_segments > 0
                                    then real (length results_dataframe) / real (length audio_segments)
                                    else 0)),
                        (''total_words'', PyInt (int (sum_list (map word_count results_dataframe)))),
                        (''speakers_count'', PyInt (int (nunique (map speaker results_dataframe))))]
                 in Inr ((results_dataframe, metrics), fs2))
              else Inr (([], [(''execution_time'', PyFloat execution_time),
                              (''segments_processed'', PyInt (int (length audio_segments)))]),
                        fs1)))"

section \<open>Correction stage (test\_models/test\_correction.py)\<close>




text \<open>\<open>input_dataframe["corrected_text"] = corrected_texts\<close>: the new column, row by
  row.\<close>

definition assign_corrected_text :: "asr_row list \<Rightarrow> ustr list \<Rightarrow> corr_row list" where
  "assign_corrected_text df corrected_texts =
     map (\<lambda>(row, c). asr_row.extend row (corr_row.fields c)) (zip df corrected_texts)"


section \<open>Summarization stage (test\_models/test\_summarization.py)\<close>

text \<open>The prompt prefix of \<open>summarize_text\<close>, an f-string in Russian, as code points.\<close>

definition prompt_prefix :: ustr where
  "prompt_prefix = [60, 76, 77, 62, 32, 1057, 1086, 1082, 1088, 1072, 1090, 1080, 32,
                    1090, 1077, 1082, 1089, 1090, 46, 10, 32]"

text \<open>\<open>summarize_text\<close>: \<open>summarization_model\<close> stands for encoding the prompt, generating
  and decoding: it gives the decoded summary or raises.\<close>

definition summarize_text :: "(ustr \<Rightarrow> exn + ustr) \<Rightarrow> ustr \<Rightarrow> ustr \<times> bool" where
  "summarize_text summarization_model input_text =
     (let prompt_text = prompt_prefix @ input_text in
      case summarization_model prompt_text of
        Inr decoded \<Rightarrow> (str_strip decoded, True)
      | Inl error \<Rightarrow> (take 200 input_text @ ascii ''...'', False))"



text \<open>The text handed to \<open>summarize_text\<close> for one speaker.\<close>

definition processed_text :: "ustr \<Rightarrow> ustr" where
  "processed_text original_text =
     (if length original_text > MAX_SUMMARY_INPUT_LENGTH
      then take MAX_SUMMARY_INPUT_LENGTH original_text @ ascii ''...''
      else original_text)"







section \<open>Pipeline driver (test\_models/run\_all\_tests.py)\<close>





section \<open>Notions used in the statements\<close>

text \<open>
  The number of whitespace-separated words of a text, counted on the text itself and not
  by splitting it: the number of positions at which a word begins, that is, of
  non-whitespace characters that are the first character or follow a whitespace
  character. \<open>word_starts_from in_word s\<close> is the count for a text \<open>s\<close> that continues
  a word (\<open>in_word\<close>) or not.
\<close>

definition word_starts_from :: "bool \<Rightarrow> ustr \<Rightarrow> nat" where
  "word_starts_from in_word s =
     length (filter (\<lambda>i. \<not> isspace (s ! i)
                          \<and> (if i = 0 then \<not> in_word else isspace (s ! (i - 1))))
               [0..<length s])"

definition whitespace_separated_words :: "ustr \<Rightarrow> nat" where
  "whitespace_separated_words s = word_starts_from False s"

text \<open>What the \<open>try\<close> block of \<open>transcribe_audio_segments\<close> yields for a segment (it does
  not depend on the files present), the rows an outcome appends to \<open>results\<close>, and the
  rows of a list of segments.\<close>

definition segment_outcome ::
  "(ustr \<Rightarrow> 'seg \<Rightarrow> export_result) \<Rightarrow> ('seg \<Rightarrow> exn + ustr) \<Rightarrow> 'seg segment
     \<Rightarrow> exn + asr_row option" where
  "segment_outcome export asr_pipeline segment =
     fst (transcribe_try export asr_pipeline segment (temp_file_name segment) Map.empty)"

definition outcome_rows :: "exn + asr_row option \<Rightarrow> asr_row list" where
  "outcome_rows outcome =
     (case outcome of Inr (Some row) \<Rightarrow> [row] | Inr None \<Rightarrow> [] | Inl error \<Rightarrow> [])"

definition transcription_rows ::
  "(ustr \<Rightarrow> 'seg \<Rightarrow> export_result) \<Rightarrow> ('seg \<Rightarrow> exn + ustr) \<Rightarrow> 'seg segment list
     \<Rightarrow> asr_row list" where
  "transcription_rows export asr_pipeline segments =
     concat (map (\<lambda>s. outcome_rows (segment_outcome export asr_pipeline s)) segments)"

text \<open>The row the loop of \<open>test_summarization\<close> appends for one speaker and the
  concatenated text of that speaker.\<close>

definition speaker_summary :: "(ustr \<Rightarrow> exn + ustr) \<Rightarrow> ustr \<times> ustr \<Rightarrow> summary_row" where
  "speaker_summary summarization_model grp =
     (let original_text = snd grp;
          summary_text = fst (summarize_text summarization_model (processed_text original_text))
      in \<lparr>speaker = fst grp, original_text_length = length original_text,
           summary_length = length summary_text,
           compression_ratio = (if length original_text > 0
                                then real (length summary_text) / real (length original_text)
                                else 0),
           summary = summary_text\<rparr>)"

section \<open>A sample run of the recognition stage\<close>

text \<open>Four diarized segments. The audio slice is represented by its bounds in
  milliseconds. The export of the third segment fails and leaves a file behind; the
  model hears speech in the first and the last segment and only a full stop in the
  second.\<close>

definition ex_diarization :: "diar_row list" where
  "ex_diarization =
     [\<lparr>speaker = ascii ''B'', start_time = 1/2, end_time = 3/2, duration = 1\<rparr>,
      \<lparr>speaker = ascii ''A'', start_time = 2, end_time = 3, duration = 1\<rparr>,
      \<lparr>speaker = ascii ''A'', start_time = 4, end_time = 5, duration = 1\<rparr>,
      \<lparr>speaker = ascii ''C'', start_time = 6, end_time = 7, duration = 1\<rparr>]"

definition ex_fs :: "(int \<times> int) fs" where
  "ex_fs = [ascii ''d.csv'' \<mapsto> DiarizationCsv ex_diarization]"

definition ex_export :: "ustr \<Rightarrow> int \<times> int \<Rightarrow> export_result" where
  "ex_export path seg = (if seg = (4000, 5000) then ExportFailed True else Exported)"

definition ex_asr_pipeline :: "int \<times> int \<Rightarrow> exn + ustr" where
  "ex_asr_pipeline seg =
     (if seg = (500, 1500) then Inr (ascii '' hi  there '')
      else if seg = (2000, 3000) then Inr (ascii '' . '')
      else if seg = (6000, 7000) then Inr (ascii ''ok'')
      else Inl ModelError)"

definition ex_asr_rows :: "asr_row list" where
  "ex_asr_rows =
     [\<lparr>speaker = ascii ''B'', start_time = 1/2, end_time = 3/2, duration = 1,
        row_text = ascii ''hi  there'', word_count = 2\<rparr>,
      \<lparr>speaker = ascii ''C'', start_time = 6, end_time = 7, duration = 1,
        row_text = ascii ''ok'', word_count = 1\<rparr>]"

section \<open>A sample run of the summarization stage\<close>





section \<open>A sample run of the whole pipeline\<close>



section \<open>Properties of the diarization stage\<close>

lemma diarization_segments_row:
  "r \<in> set (diarization_segments tracks) \<Longrightarrow>
     duration r = end_time r - start_time r \<and> MIN_SEGMENT_DURATION \<le> duration r"
  by (induction tracks rule: diarization_segments.induct) (auto split: if_splits)

lemma diarization_segments_complete:
  "(t, sp) \<in> set tracks \<Longrightarrow> MIN_SEGMENT_DURATION \<le> turn_end t - turn_start t \<Longrightarrow>
     \<lparr>speaker = sp, start_time = turn_start t, end_time = turn_end t,
       duration = turn_end t - turn_start t\<rparr> \<in> set (diarization_segments tracks)"
  by (induction tracks rule: diarization_segments.induct) (auto split: if_splits)

lemma diarization_segments_sound:
  "r \<in> set (diarization_segments tracks) \<Longrightarrow>
     \<exists>t. (t, speaker r) \<in> set tracks \<and> start_time r = turn_start t \<and> end_time r = turn_end t"
  by (induction tracks rule: diarization_segments.induct) (auto split: if_splits)

lemma set_sort_values_start_time [simp]:
  "set (sort_values_start_time df) = set df"
  by (simp add: sort_values_start_time_def)

lemma length_sort_values_start_time [simp]:
  "length (sort_values_start_time df) = length df"
  by (simp add: sort_values_start_time_def)

lemma sorted_sort_values_start_time:
  "sorted (map start_time (sort_values_start_time df))"
  by (simp add: sort_values_start_time_def)

lemma sort_values_start_time_Nil_iff [simp]:
  "sort_values_start_time df = [] \<longleftrightarrow> df = []"
  by (metis length_sort_values_start_time length_0_conv)

text \<open>
  Claim C7. Every segment the diarization stage retains has \<open>end_time > start_time\<close>,
  \<open>duration = end_time - start_time\<close> and \<open>duration \<ge> MIN_SEGMENT_DURATION\<close> (0.5 s);
  a turn shorter than the threshold gives no row, a turn that reaches it gives one; and
  whenever the stage writes its table, the table written is sorted ascending by
  \<open>start_time\<close>.
\<close>

theorem perform_diarization_segments:
  assumes "perform_diarization tracks execution_time output_csv_path fs = ((df, m), fs')"
  shows "(\<forall>r \<in> set df. start_time r < end_time r \<and> duration r = end_time r - start_time r
            \<and> MIN_SEGMENT_DURATION \<le> duration r \<and> (1/2 :: real) \<le> duration r)
         \<and> (\<forall>r \<in> set df. \<exists>t. (t, speaker r) \<in> set tracks \<and> start_time r = turn_start t
               \<and> end_time r = turn_end t \<and> \<not> turn_end t - turn_start t < MIN_SEGMENT_DURATION)
         \<and> (\<forall>(t, sp) \<in> set tracks. MIN_SEGMENT_DURATION \<le> turn_end t - turn_start t \<longrightarrow>
               \<lparr>speaker = sp, start_time = turn_start t, end_time = turn_end t,
                 duration = turn_end t - turn_start t\<rparr> \<in> set df)
         \<and> sorted (map start_time df)
         \<and> (df \<noteq> [] \<longrightarrow> fs' = fs(output_csv_path \<mapsto> DiarizationCsv df))
         \<and> (df = [] \<longrightarrow> fs' = fs)"
proof -
  have df: "set df = set (diarization_segments tracks)"
    using assms by (auto simp: perform_diarization_def Let_def split: if_splits)
  have rows: "start_time r < end_time r \<and> duration r = end_time r - start_time r
      \<and> MIN_SEGMENT_DURATION \<le> duration r \<and> (1/2 :: real) \<le> duration r" if "r \<in> set df" for r
    using diarization_segments_row [of r tracks] that df
    by (simp add: MIN_SEGMENT_DURATION_def)
  have sound: "\<exists>t. (t, speaker r) \<in> set tracks \<and> start_time r = turn_start t
      \<and> end_time r = turn_end t \<and> \<not> turn_end t - turn_start t < MIN_SEGMENT_DURATION"
    if "r \<in> set df" for r
  proof -
    from that df have r: "r \<in> set (diarization_segments tracks)" by simp
    from diarization_segments_sound [OF r] obtain t where
      t: "(t, speaker r) \<in> set tracks" "start_time r = turn_start t" "end_time r = turn_end t"
      by blast
    from diarization_segments_row [OF r] t have "\<not> turn_end t - turn_start t < MIN_SEGMENT_DURATION"
      by simp
    with t show ?thesis by blast
  qed
  have complete: "\<lparr>speaker = sp, start_time = turn_start t, end_time = turn_end t,
      duration = turn_end t - turn_start t\<rparr> \<in> set df"
    if "(t, sp) \<in> set tracks" "MIN_SEGMENT_DURATION \<le> turn_end t - turn_start t" for t sp
    using diarization_segments_complete [OF that] df by simp
  have sorted: "sorted (map start_time df)"
    using assms sorted_sort_values_start_time [of "diarization_segments tracks"]
    by (auto simp: perform_diarization_def Let_def split: if_splits)
  have written: "df \<noteq> [] \<longrightarrow> fs' = fs(output_csv_path \<mapsto> DiarizationCsv df)"
    using assms by (auto simp: perform_diarization_def Let_def split: if_splits)
  have unwritten: "df = [] \<longrightarrow> fs' = fs"
    using assms by (auto simp: perform_diarization_def Let_def split: if_splits)
  from rows sound complete sorted written unwritten show ?thesis
    by blast
qed

theorem perform_diarization_segments_witness:
  "fst (fst (perform_diarization
       [(\<lparr>turn_start = 2, turn_end = 3\<rparr>, ascii ''A''),
        (\<lparr>turn_start = 0, turn_end = 1/4\<rparr>, ascii ''B''),
        (\<lparr>turn_start = 1/2, turn_end = 3/2\<rparr>, ascii ''B'')] 1 (ascii ''d.csv'')
       (Map.empty :: unit fs)))
     = [\<lparr>speaker = ascii ''B'', start_time = 1/2, end_time = 3/2, duration = 1\<rparr>,
        \<lparr>speaker = ascii ''A'', start_time = 2, end_time = 3, duration = 1\<rparr>]
   \<and> sorted (map start_time
        [\<lparr>speaker = ascii ''B'', start_time = 1/2, end_time = 3/2, duration = 1\<rparr>,
         \<lparr>speaker = ascii ''A'', start_time = 2, end_time = 3, duration = 1::real\<rparr>])
   \<and> \<lparr>speaker = ascii ''B'', start_time = 0, end_time = 1/4, duration = 1/4\<rparr>
        \<notin> set (fst (fst (perform_diarization
       [(\<lparr>turn_start = 2, turn_end = 3\<rparr>, ascii ''A''),
        (\<lparr>turn_start = 0, turn_end = 1/4\<rparr>, ascii ''B''),
        (\<lparr>turn_start = 1/2, turn_end = 3/2\<rparr>, ascii ''B'')] 1 (ascii ''d.csv'')
       (Map.empty :: unit fs))))"
proof -
  have run: "perform_diarization
       [(\<lparr>turn_start = 2, turn_end = 3\<rparr>, ascii ''A''),
        (\<lparr>turn_start = 0, turn_end = 1/4\<rparr>, ascii ''B''),
        (\<lparr>turn_start = 1/2, turn_end = 3/2\<rparr>, ascii ''B'')] 1 (ascii ''d.csv'')
       (Map.empty :: unit fs)
     = (([\<lparr>speaker = ascii ''B'', start_time = 1/2, end_time = 3/2, duration = 1\<rparr>,
          \<lparr>speaker = ascii ''A'', start_time = 2, end_time = 3, duration = 1\<rparr>],
         [(''execution_time'', PyFloat 1), (''segments_count'', PyInt 2),
          (''speakers_count'', PyInt 2), (''audio_duration'', PyFloat 3)]),
        [ascii ''d.csv'' \<mapsto> DiarizationCsv
          [\<lparr>speaker = ascii ''B'', start_time = 1/2, end_time = 3/2, duration = 1\<rparr>,
           \<lparr>speaker = ascii ''A'', start_time = 2, end_time = 3, duration = 1\<rparr>]])"
    by (simp add: perform_diarization_def sort_values_start_time_def MIN_SEGMENT_DURATION_def
        nunique_def column_max_def ascii_def Let_def)
  from perform_diarization_segments [OF run] show ?thesis
    unfolding run by simp
qed

section \<open>Properties of the string operations\<close>

lemma word_starts_from_Nil [simp]: "word_starts_from b [] = 0"
  by (simp add: word_starts_from_def)

lemma word_starts_from_Cons:
  "word_starts_from b (c # cs) =
     (if \<not> isspace c \<and> \<not> b then 1 else 0) + word_starts_from (\<not> isspace c) cs"
proof -
  have upt: "[0..<length (c # cs)] = 0 # map Suc [0..<length cs]"
    by (simp add: upt_conv_Cons map_Suc_upt del: upt_Suc)
  have tail: "filter (\<lambda>i. \<not> isspace ((c # cs) ! i) \<and>
                 (if i = 0 then \<not> b else isspace ((c # cs) ! (i - 1)))) (map Suc [0..<length cs])
      = map Suc (filter (\<lambda>i. \<not> isspace (cs ! i) \<and>
                 (if i = 0 then \<not> \<not> isspace c else isspace (cs ! (i - 1)))) [0..<length cs])"
    unfolding filter_map
    by (rule arg_cong [where f = "map Suc"], rule filter_cong) (auto simp: nth_Cons')
  show ?thesis
    unfolding word_starts_from_def upt by (simp add: tail del: upt_Suc)
qed

lemma length_split_aux:
  "length (split_aux cur cs) = (if cur = [] then 0 else 1) + word_starts_from (cur \<noteq> []) cs"
  by (induction cur cs rule: split_aux.induct) (auto simp: word_starts_from_Cons)

lemma split_aux_words:
  "\<forall>c \<in> set cur. \<not> isspace c \<Longrightarrow> w \<in> set (split_aux cur cs) \<Longrightarrow>
     w \<noteq> [] \<and> (\<forall>c \<in> set w. \<not> isspace c)"
proof (induction cur cs rule: split_aux.induct)
  case (1 cur)
  then show ?case by (cases "cur = []") simp_all
next
  case (2 cur c cs)
  show ?case
  proof (cases "isspace c")
    case space: True
    show ?thesis
    proof (cases "cur = []")
      case True
      with space "2.prems" have "w \<in> set (split_aux [] cs)" by simp
      with "2.IH"(1) [OF space True] show ?thesis by simp
    next
      case False
      with space "2.prems" have "w = cur \<or> w \<in> set (split_aux [] cs)" by simp
      then show ?thesis
      proof
        assume "w = cur"
        with False "2.prems"(1) show ?thesis by simp
      next
        assume "w \<in> set (split_aux [] cs)"
        with "2.IH"(2) [OF space False] show ?thesis by simp
      qed
    qed
  next
    case False
    with "2.prems" have w: "w \<in> set (split_aux (cur @ [c]) cs)" by simp
    from False "2.prems"(1) have "\<forall>x \<in> set (cur @ [c]). \<not> isspace x" by simp
    from "2.IH"(3) [OF False this w] show ?thesis .
  qed
qed

lemma concat_split_aux:
  "concat (split_aux cur cs) = cur @ filter (\<lambda>c. \<not> isspace c) cs"
  by (induction cur cs rule: split_aux.induct) auto

lemma str_split_words:
  "w \<in> set (str_split s) \<Longrightarrow> w \<noteq> [] \<and> (\<forall>c \<in> set w. \<not> isspace c)"
  using split_aux_words [of "[]" w s] by (simp add: str_split_def)

lemma concat_str_split:
  "concat (str_split s) = filter (\<lambda>c. \<not> isspace c) s"
  by (simp add: str_split_def concat_split_aux)

lemma dropWhile_rev_decomp:
  "t = rev (dropWhile P (rev t)) @ rev (takeWhile P (rev t))"
proof -
  have "rev (takeWhile P (rev t) @ dropWhile P (rev t)) = rev (rev t)"
    by (simp only: takeWhile_dropWhile_id)
  then show ?thesis
    by (simp only: rev_append rev_rev_ident)
qed

lemma str_strip_ends:
  assumes "str_strip s \<noteq> []"
  shows "\<not> isspace (hd (str_strip s))" "\<not> isspace (last (str_strip s))"
proof -
  let ?t = "dropWhile isspace s"
  let ?u = "dropWhile isspace (rev ?t)"
  from assms have u: "?u \<noteq> []" by (simp only: str_strip_def rev_is_Nil_conv not_False_eq_True)
  have t: "?t \<noteq> []"
  proof
    assume "?t = []"
    then have "?u = []" by (simp only: rev.simps dropWhile.simps)
    with u show False ..
  qed
  have "?t = rev ?u @ rev (takeWhile isspace (rev ?t))" by (rule dropWhile_rev_decomp)
  then have "hd ?t = hd (rev ?u)" using u by (metis hd_append2 rev_is_Nil_conv)
  moreover have "\<not> isspace (hd ?t)" using t by (rule hd_dropWhile)
  ultimately show "\<not> isspace (hd (str_strip s))" unfolding str_strip_def by simp
  have "\<not> isspace (hd ?u)" using u by (rule hd_dropWhile)
  then show "\<not> isspace (last (str_strip s))" unfolding str_strip_def last_rev .
qed

lemma str_strip_Nil [simp]: "str_strip [] = []"
  by (simp add: str_strip_def)

lemma str_strip_idem: "str_strip (str_strip s) = str_strip s"
proof (cases "str_strip s = []")
  case True
  then show ?thesis by (simp only: str_strip_Nil)
next
  case False
  let ?v = "str_strip s"
  from str_strip_ends [OF False] have h: "\<not> isspace (hd ?v)" and l: "\<not> isspace (last ?v)" .
  have 1: "dropWhile isspace ?v = ?v" using h by (simp only: dropWhile_eq_self_iff simp_thms)
  have "hd (rev ?v) = last ?v" by (rule hd_rev)
  then have 2: "dropWhile isspace (rev ?v) = rev ?v" using l by (simp only: dropWhile_eq_self_iff simp_thms)
  show ?thesis unfolding str_strip_def [of ?v] 1 2 by (rule rev_rev_ident)
qed

section \<open>Properties of the recognition stage\<close>

lemma fst_transcribe_try:
  "fst (transcribe_try export asr_pipeline segment (temp_file_name segment) fs)
     = segment_outcome export asr_pipeline segment"
  by (simp add: segment_outcome_def transcribe_try_def Let_def
      split: export_result.splits sum.splits)

lemma snd_transcribe_try_other:
  "p \<noteq> temp_file \<Longrightarrow> snd (transcribe_try export asr_pipeline segment temp_file fs) p = fs p"
  by (simp add: transcribe_try_def Let_def split: export_result.splits sum.splits)

lemma snd_transcribe_try_exported:
  "export temp_file (audio_segment segment) = Exported \<Longrightarrow>
     snd (transcribe_try export asr_pipeline segment temp_file fs) temp_file
       = Some (Wav (audio_segment segment))"
  by (simp add: transcribe_try_def Let_def split: export_result.splits sum.splits)

lemma transcribe_segment_eq:
  "transcribe_segment export asr_pipeline segment (results, fs) =
     (results @ outcome_rows (segment_outcome export asr_pipeline segment),
      fs(temp_file_name segment := None))"
proof -
  let ?att = "transcribe_try export asr_pipeline segment (temp_file_name segment) fs"
  have fs: "(if temp_file_name segment \<in> dom (snd ?att)
             then (snd ?att)(temp_file_name segment := None) else snd ?att)
        = fs(temp_file_name segment := None)"
    by (rule ext) (auto simp: snd_transcribe_try_other)
  have rows: "(case fst ?att of Inr (Some r) \<Rightarrow> results @ [r] | Inr None \<Rightarrow> results
                | Inl error \<Rightarrow> results)
        = results @ outcome_rows (segment_outcome export asr_pipeline segment)"
    unfolding fst_transcribe_try outcome_rows_def
    by (simp split: sum.splits option.splits)
  show ?thesis
    unfolding transcribe_segment_def Let_def fst_conv snd_conv rows fs ..
qed

lemma fold_transcribe_segment:
  "fold (transcribe_segment export asr_pipeline) segments (results, fs) =
     (results @ concat (map (\<lambda>s. outcome_rows (segment_outcome export asr_pipeline s)) segments),
      (\<lambda>p. if p \<in> temp_file_name ` set segments then None else fs p))"
proof (induction segments arbitrary: results fs)
  case Nil
  then show ?case by simp
next
  case (Cons s segments)
  have "(\<lambda>p. if p \<in> temp_file_name ` set segments then None
              else (fs(temp_file_name s := None)) p)
      = (\<lambda>p. if p \<in> temp_file_name ` set (s # segments) then None else fs p)"
    by (rule ext) auto
  then show ?case
    by (simp add: transcribe_segment_eq Cons.IH)
qed

lemma transcribe_audio_segments_eq:
  "transcribe_audio_segments export asr_pipeline segments fs =
     (concat (map (\<lambda>s. outcome_rows (segment_outcome export asr_pipeline s)) segments),
      (\<lambda>p. if p \<in> temp_file_name ` set segments then None else fs p))"
  by (simp add: transcribe_audio_segments_def fold_transcribe_segment)

lemma segment_outcome_eq:
  "segment_outcome export asr_pipeline s =
     (case export (temp_file_name s) (audio_segment s) of
        ExportFailed left_behind \<Rightarrow> Inl ExportError
      | Exported \<Rightarrow>
          (case asr_pipeline (audio_segment s) of
             Inl error \<Rightarrow> Inl error
           | Inr raw \<Rightarrow>
               (if str_strip raw \<noteq> [] \<and> str_strip raw \<noteq> ascii ''.''
                   \<and> str_strip raw \<noteq> ascii ''...''
                then Inr (Some \<lparr>speaker = speaker s, start_time = start_time s,
                                 end_time = end_time s, duration = duration s,
                                 row_text = str_strip raw,
                                 word_count = length (str_split (str_strip raw))\<rparr>)
                else Inr None)))"
  unfolding segment_outcome_def transcribe_try_def Let_def
  by (simp split: export_result.split sum.split)

lemma outcome_rows_row:
  assumes "r \<in> set (outcome_rows (segment_outcome export asr_pipeline s))"
  shows "\<exists>raw. asr_pipeline (audio_segment s) = Inr raw \<and> row_text r = str_strip raw
           \<and> row_text r \<noteq> [] \<and> row_text r \<noteq> ascii ''.'' \<and> row_text r \<noteq> ascii ''...''
           \<and> word_count r = length (str_split (row_text r))
           \<and> speaker r = speaker s \<and> start_time r = start_time s \<and> end_time r = end_time s
           \<and> duration r = duration s"
proof (cases "export (temp_file_name s) (audio_segment s)")
  case Exported
  show ?thesis
  proof (cases "asr_pipeline (audio_segment s)")
    case (Inl e)
    with Exported assms show ?thesis
      by (simp add: segment_outcome_eq outcome_rows_def)
  next
    case (Inr raw)
    show ?thesis
    proof (cases "str_strip raw \<noteq> [] \<and> str_strip raw \<noteq> ascii ''.''
                   \<and> str_strip raw \<noteq> ascii ''...''")
      case True
      with Exported Inr assms have "r = \<lparr>speaker = speaker s, start_time = start_time s,
            end_time = end_time s, duration = duration s, row_text = str_strip raw,
            word_count = length (str_split (str_strip raw))\<rparr>"
        by (simp add: segment_outcome_eq outcome_rows_def)
      with True Inr show ?thesis by simp
    next
      case False
      with Exported Inr assms show ?thesis
        by (simp add: segment_outcome_eq outcome_rows_def)
    qed
  qed
next
  case (ExportFailed b)
  with assms show ?thesis
    by (simp add: segment_outcome_eq outcome_rows_def)
qed

lemma length_extract_audio_segments [simp]:
  "length (extract_audio_segments audio df) = length df"
  by (simp add: extract_audio_segments_def)

lemma length_str_split: "length (str_split s) = whitespace_separated_words s"
  by (simp add: str_split_def whitespace_separated_words_def length_split_aux)

lemma transcription_rows_row:
  assumes "r \<in> set (transcription_rows export asr_pipeline segments)"
  shows "\<exists>s \<in> set segments. \<exists>raw. asr_pipeline (audio_segment s) = Inr raw
           \<and> row_text r = str_strip raw
           \<and> row_text r \<noteq> [] \<and> row_text r \<noteq> ascii ''.'' \<and> row_text r \<noteq> ascii ''...''
           \<and> word_count r = length (str_split (row_text r))
           \<and> speaker r = speaker s \<and> start_time r = start_time s \<and> end_time r = end_time s
           \<and> duration r = duration s"
proof -
  from assms obtain s where s: "s \<in> set segments"
    and r: "r \<in> set (outcome_rows (segment_outcome export asr_pipeline s))"
    by (auto simp: transcription_rows_def)
  from outcome_rows_row [OF r] s show ?thesis by blast
qed

lemma length_outcome_rows:
  "length (outcome_rows outcome) = (if outcome = Inr None \<or> isl outcome then 0 else 1)"
  by (cases outcome) (auto simp: outcome_rows_def split: option.splits)

lemma length_transcription_rows:
  "length (transcription_rows export asr_pipeline segments)
     + length (filter (\<lambda>s. segment_outcome export asr_pipeline s = Inr None) segments)
     + length (filter (\<lambda>s. isl (segment_outcome export asr_pipeline s)) segments)
   = length segments"
proof (induction segments)
  case Nil
  show ?case by (simp add: transcription_rows_def)
next
  case (Cons s segments)
  have "transcription_rows export asr_pipeline (s # segments)
      = outcome_rows (segment_outcome export asr_pipeline s)
        @ transcription_rows export asr_pipeline segments"
    by (simp add: transcription_rows_def)
  with Cons show ?case
    by (cases "segment_outcome export asr_pipeline s") (auto simp: length_outcome_rows)
qed

lemma perform_speech_recognition_result:
  fixes audio :: "int \<Rightarrow> int \<Rightarrow> 'seg" and fs :: "'seg fs" and df export asr_pipeline
  assumes "read_diarization_csv fs diarization_csv_path = Inr df"
  defines "segs \<equiv> extract_audio_segments audio df"
  defines "rows \<equiv> transcription_rows export asr_pipeline segs"
  defines "fs1 \<equiv> (\<lambda>p. if p \<in> temp_file_name ` set segs then None else fs p)"
  shows "\<exists>m. perform_speech_recognition audio export asr_pipeline execution_time
                diarization_csv_path output_csv_path fs
              = Inr ((sort_values_start_time rows, m),
                     if rows = [] then fs1
                     else fs1(output_csv_path \<mapsto> AsrCsv (sort_values_start_time rows)))
            \<and> map fst m = (if rows = [] then [''execution_time'', ''segments_processed'']
                 else [''execution_time'', ''segments_processed'', ''segments_with_speech'',
                       ''success_rate'', ''total_words'', ''speakers_count''])
            \<and> (rows \<noteq> [] \<longrightarrow> map_of m ''success_rate''
                   = Some (PyFloat (real (length rows) / real (length df))))"
proof -
  have tr: "transcribe_audio_segments export asr_pipeline segs fs = (rows, fs1)"
    by (simp add: transcribe_audio_segments_eq rows_def fs1_def transcription_rows_def)
  show ?thesis
  proof (cases "rows = []")
    case True
    with assms(1) tr show ?thesis
      by (simp add: perform_speech_recognition_def Let_def segs_def [symmetric]
          sort_values_start_time_def)
  next
    case False
    then have ne: "segs \<noteq> []" by (auto simp: rows_def transcription_rows_def)
    have len: "length segs = length df" by (simp add: segs_def)
    from False ne len assms(1) tr show ?thesis
      by (simp add: perform_speech_recognition_def Let_def segs_def [symmetric])
  qed
qed

lemma perform_speech_recognition_read:
  assumes "perform_speech_recognition audio export asr_pipeline execution_time
             diarization_csv_path output_csv_path fs = Inr r"
  shows "\<exists>df. read_diarization_csv fs diarization_csv_path = Inr df"
  using assms by (cases "read_diarization_csv fs diarization_csv_path")
    (simp_all add: perform_speech_recognition_def)

lemma ex_read: "read_diarization_csv ex_fs (ascii ''d.csv'') = Inr ex_diarization"
  by (simp add: read_diarization_csv_def ex_fs_def)

lemma ex_segments:
  "extract_audio_segments Pair ex_diarization =
     [\<lparr>speaker = ascii ''B'', start_time = 1/2, end_time = 3/2, duration = 1,
        audio_segment = (500, 1500), segment_index = 0\<rparr>,
      \<lparr>speaker = ascii ''A'', start_time = 2, end_time = 3, duration = 1,
        audio_segment = (2000, 3000), segment_index = 1\<rparr>,
      \<lparr>speaker = ascii ''A'', start_time = 4, end_time = 5, duration = 1,
        audio_segment = (4000, 5000), segment_index = 2\<rparr>,
      \<lparr>speaker = ascii ''C'', start_time = 6, end_time = 7, duration = 1,
        audio_segment = (6000, 7000), segment_index = 3\<rparr>]"
  by (simp add: extract_audio_segments_def ex_diarization_def enumerate_eq_zip py_int_def Let_def upt_rec)

lemma ex_outcomes:
  "map (segment_outcome ex_export ex_asr_pipeline) (extract_audio_segments Pair ex_diarization)
     = [Inr (Some (ex_asr_rows ! 0)), Inr None, Inl ExportError, Inr (Some (ex_asr_rows ! 1))]"
  unfolding ex_segments
  by (simp add: segment_outcome_eq ex_export_def ex_asr_pipeline_def ex_asr_rows_def
      str_strip_def str_split_def isspace_def ascii_def)

lemma ex_rows:
  "sort_values_start_time
     (transcription_rows ex_export ex_asr_pipeline (extract_audio_segments Pair ex_diarization))
   = ex_asr_rows"
proof -
  have "transcription_rows ex_export ex_asr_pipeline (extract_audio_segments Pair ex_diarization)
      = concat (map outcome_rows
          (map (segment_outcome ex_export ex_asr_pipeline)
             (extract_audio_segments Pair ex_diarization)))"
    by (simp add: transcription_rows_def comp_def)
  also have "\<dots> = ex_asr_rows"
    unfolding ex_outcomes by (simp add: outcome_rows_def ex_asr_rows_def)
  finally show ?thesis
    by (simp add: sort_values_start_time_def ex_asr_rows_def)
qed

lemma ex_run:
  "\<exists>m fs'. perform_speech_recognition Pair ex_export ex_asr_pipeline 2
              (ascii ''d.csv'') (ascii ''a.csv'') ex_fs = Inr ((ex_asr_rows, m), fs')"
  using perform_speech_recognition_result [OF ex_read, of Pair ex_export ex_asr_pipeline 2
      "ascii ''a.csv''"]
  unfolding ex_rows by blast

text \<open>
  Claim C6. Every row the recognition stage returns has a text that is not empty and
  is neither \<open>"."\<close> nor \<open>"..."\<close>; the text is trimmed already, so trimming it again
  changes nothing; its \<open>word_count\<close> is the length of \<open>text.split()\<close>, which is the
  number of whitespace-separated words of the text (the words being non-empty, free of
  whitespace and, put together, the text without its whitespace); the returned table is sorted
  ascending by \<open>start_time\<close>, and when it has a row it is the table written to the
  output file.
\<close>

theorem recognition_rows:
  assumes "perform_speech_recognition audio export asr_pipeline execution_time
             diarization_csv_path output_csv_path fs = Inr ((out, m), fs')"
  shows "(\<forall>r \<in> set out. row_text r \<noteq> [] \<and> row_text r \<noteq> ascii ''.'' \<and> row_text r \<noteq> ascii ''...''
            \<and> str_strip (row_text r) = row_text r
            \<and> word_count r = length (str_split (row_text r))
            \<and> word_count r = whitespace_separated_words (row_text r)
            \<and> (\<forall>w \<in> set (str_split (row_text r)). w \<noteq> [] \<and> (\<forall>c \<in> set w. \<not> isspace c))
            \<and> concat (str_split (row_text r)) = filter (\<lambda>c. \<not> isspace c) (row_text r))
         \<and> sorted (map start_time out)
         \<and> (out \<noteq> [] \<longrightarrow> fs' output_csv_path = Some (AsrCsv out))"
proof -
  from perform_speech_recognition_read [OF assms] obtain df
    where read: "read_diarization_csv fs diarization_csv_path = Inr df" ..
  define rows where "rows = transcription_rows export asr_pipeline (extract_audio_segments audio df)"
  from perform_speech_recognition_result [OF read, of audio export asr_pipeline execution_time
      output_csv_path] assms
  have out: "out = sort_values_start_time rows"
    and fs': "fs' = (if rows = []
                then (\<lambda>p. if p \<in> temp_file_name ` set (extract_audio_segments audio df)
                          then None else fs p)
                else (\<lambda>p. if p \<in> temp_file_name ` set (extract_audio_segments audio df)
                          then None else fs p)
                       (output_csv_path \<mapsto> AsrCsv (sort_values_start_time rows)))"
    by (auto simp: rows_def)
  have row: "row_text r \<noteq> [] \<and> row_text r \<noteq> ascii ''.'' \<and> row_text r \<noteq> ascii ''...''
            \<and> str_strip (row_text r) = row_text r
            \<and> word_count r = length (str_split (row_text r))
            \<and> word_count r = whitespace_separated_words (row_text r)
            \<and> (\<forall>w \<in> set (str_split (row_text r)). w \<noteq> [] \<and> (\<forall>c \<in> set w. \<not> isspace c))
            \<and> concat (str_split (row_text r)) = filter (\<lambda>c. \<not> isspace c) (row_text r)"
    if "r \<in> set out" for r
  proof -
    from that out have "r \<in> set rows" by simp
    from transcription_rows_row [OF this [unfolded rows_def]] obtain raw where
      "row_text r = str_strip raw" "row_text r \<noteq> []" "row_text r \<noteq> ascii ''.''"
      "row_text r \<noteq> ascii ''...''" "word_count r = length (str_split (row_text r))"
      by blast
    then show ?thesis
      using str_split_words [of _ "row_text r"]
      by (simp add: str_strip_idem length_str_split concat_str_split)
  qed
  have sorted: "sorted (map start_time out)"
    unfolding out by (rule sorted_sort_values_start_time)
  have written: "out \<noteq> [] \<longrightarrow> fs' output_csv_path = Some (AsrCsv out)"
    using out fs' by simp
  from row sorted written show ?thesis by blast
qed

theorem recognition_rows_witness:
  "(\<exists>m fs'. perform_speech_recognition Pair ex_export ex_asr_pipeline 2
              (ascii ''d.csv'') (ascii ''a.csv'') ex_fs = Inr ((ex_asr_rows, m), fs')
            \<and> fs' (ascii ''a.csv'') = Some (AsrCsv ex_asr_rows))
   \<and> ex_asr_rows \<noteq> []
   \<and> row_text (ex_asr_rows ! 0) = ascii ''hi  there''
   \<and> str_strip (row_text (ex_asr_rows ! 0)) = row_text (ex_asr_rows ! 0)
   \<and> word_count (ex_asr_rows ! 0) = 2
   \<and> whitespace_separated_words (row_text (ex_asr_rows ! 0)) = 2
   \<and> sorted (map start_time ex_asr_rows)"
proof -
  from ex_run obtain m fs' where run:
    "perform_speech_recognition Pair ex_export ex_asr_pipeline 2
       (ascii ''d.csv'') (ascii ''a.csv'') ex_fs = Inr ((ex_asr_rows, m), fs')"
    by blast
  have ne: "ex_asr_rows \<noteq> []" and mem: "ex_asr_rows ! 0 \<in> set ex_asr_rows"
    by (simp_all add: ex_asr_rows_def)
  have vals: "row_text (ex_asr_rows ! 0) = ascii ''hi  there''" "word_count (ex_asr_rows ! 0) = 2"
    by (simp_all add: ex_asr_rows_def)
  from recognition_rows [OF run] ne mem vals run show ?thesis
    by (metis (no_types, lifting))
qed

text \<open>
  Claim C9. After the attempt for a segment, the segment's temporary file does not
  exist, whatever the export and the transcription did (both are arbitrary here, so they
  may succeed or raise); when the export succeeded the file did exist inside the
  attempt. An attempt that raises appends no row. After the whole loop no segment's
  temporary file exists and no other file has changed. No exception of an attempt leaves
  the stage: once the diarization table is read, the stage returns.
\<close>

theorem temp_file_removed:
  "temp_file_name segment \<notin> dom (snd (transcribe_segment export asr_pipeline segment (results, fs)))
   \<and> (export (temp_file_name segment) (audio_segment segment) = Exported \<longrightarrow>
        snd (transcribe_try export asr_pipeline segment (temp_file_name segment) fs)
          (temp_file_name segment) = Some (Wav (audio_segment segment)))
   \<and> (isl (fst (transcribe_try export asr_pipeline segment (temp_file_name segment) fs)) \<longrightarrow>
        fst (transcribe_segment export asr_pipeline segment (results, fs)) = results)
   \<and> (\<forall>s \<in> set segments.
        temp_file_name s \<notin> dom (snd (transcribe_audio_segments export asr_pipeline segments fs)))
   \<and> (\<forall>p. p \<notin> temp_file_name ` set segments \<longrightarrow>
        snd (transcribe_audio_segments export asr_pipeline segments fs) p = fs p)
   \<and> (read_diarization_csv fs diarization_csv_path = Inr df \<longrightarrow>
        (\<exists>r. perform_speech_recognition audio export asr_pipeline execution_time
                diarization_csv_path output_csv_path fs = Inr r))"
proof -
  have 1: "temp_file_name segment
      \<notin> dom (snd (transcribe_segment export asr_pipeline segment (results, fs)))"
    by (simp add: transcribe_segment_eq)
  have 2: "export (temp_file_name segment) (audio_segment segment) = Exported \<longrightarrow>
        snd (transcribe_try export asr_pipeline segment (temp_file_name segment) fs)
          (temp_file_name segment) = Some (Wav (audio_segment segment))"
    by (simp add: snd_transcribe_try_exported)
  have 3: "isl (fst (transcribe_try export asr_pipeline segment (temp_file_name segment) fs)) \<longrightarrow>
        fst (transcribe_segment export asr_pipeline segment (results, fs)) = results"
    by (simp add: transcribe_segment_eq fst_transcribe_try length_outcome_rows
        flip: length_0_conv)
  have 4: "\<forall>s \<in> set segments.
        temp_file_name s \<notin> dom (snd (transcribe_audio_segments export asr_pipeline segments fs))"
    by (simp add: transcribe_audio_segments_eq dom_def)
  have 5: "\<forall>p. p \<notin> temp_file_name ` set segments \<longrightarrow>
        snd (transcribe_audio_segments export asr_pipeline segments fs) p = fs p"
    by (simp add: transcribe_audio_segments_eq)
  have 6: "read_diarization_csv fs diarization_csv_path = Inr df \<longrightarrow>
        (\<exists>r. perform_speech_recognition audio export asr_pipeline execution_time
                diarization_csv_path output_csv_path fs = Inr r)"
    using perform_speech_recognition_result [of fs diarization_csv_path df audio export
        asr_pipeline execution_time output_csv_path]
    by blast
  from 1 2 3 4 5 6 show ?thesis by blast
qed

theorem temp_file_removed_witness:
  "temp_file_name (extract_audio_segments Pair ex_diarization ! 0)
     \<notin> dom (snd (transcribe_segment ex_export ex_asr_pipeline
                   (extract_audio_segments Pair ex_diarization ! 0) ([], ex_fs)))
   \<and> snd (transcribe_try ex_export ex_asr_pipeline
            (extract_audio_segments Pair ex_diarization ! 0)
            (temp_file_name (extract_audio_segments Pair ex_diarization ! 0)) ex_fs)
        (temp_file_name (extract_audio_segments Pair ex_diarization ! 0))
       = Some (Wav (500, 1500))
   \<and> fst (transcribe_try ex_export ex_asr_pipeline
            (extract_audio_segments Pair ex_diarization ! 2)
            (temp_file_name (extract_audio_segments Pair ex_diarization ! 2)) ex_fs)
       = Inl ExportError
   \<and> fst (transcribe_segment ex_export ex_asr_pipeline
            (extract_audio_segments Pair ex_diarization ! 2) ([], ex_fs)) = []
   \<and> temp_file_name (extract_audio_segments Pair ex_diarization ! 2)
       \<notin> dom (snd (transcribe_audio_segments ex_export ex_asr_pipeline
                     (extract_audio_segments Pair ex_diarization) ex_fs))
   \<and> (\<exists>r. perform_speech_recognition Pair ex_export ex_asr_pipeline 2
              (ascii ''d.csv'') (ascii ''a.csv'') ex_fs = Inr r)"
proof -
  let ?segs = "extract_audio_segments Pair ex_diarization"
  have exported: "ex_export (temp_file_name (?segs ! 0)) (audio_segment (?segs ! 0)) = Exported"
    and audio0: "audio_segment (?segs ! 0) = (500, 1500)"
    unfolding ex_segments by (simp_all add: ex_export_def)
  have failed: "fst (transcribe_try ex_export ex_asr_pipeline (?segs ! 2)
                       (temp_file_name (?segs ! 2)) ex_fs) = Inl ExportError"
    unfolding fst_transcribe_try using ex_outcomes by (simp add: ex_segments)
  have mem: "?segs ! 2 \<in> set ?segs"
    unfolding ex_segments by simp
  note a = temp_file_removed [of "?segs ! 0" ex_export ex_asr_pipeline "[]" ex_fs ?segs
      "ascii ''d.csv''" ex_diarization Pair 2 "ascii ''a.csv''"]
  note b = temp_file_removed [of "?segs ! 2" ex_export ex_asr_pipeline "[]" ex_fs ?segs
      "ascii ''d.csv''" ex_diarization Pair 2 "ascii ''a.csv''"]
  from a b exported audio0 failed mem ex_read show ?thesis
    by (metis (no_types, lifting) sum.disc(1))
qed

text \<open>
  Claim C10. When the recognition stage returns at least one row, its \<open>success_rate\<close>
  is the number of returned rows divided by the number of diarization rows read; the
  segments without a row are those where no speech was detected together with those
  whose attempt raised, and the metric does not tell them apart.
\<close>

theorem recognition_success_rate:
  assumes "read_diarization_csv fs diarization_csv_path = Inr df"
    and "perform_speech_recognition audio export asr_pipeline execution_time
           diarization_csv_path output_csv_path fs = Inr ((out, m), fs')"
    and "out \<noteq> []"
  shows "map_of m ''success_rate'' = Some (PyFloat (real (length out) / real (length df)))
         \<and> length out
             + length (filter (\<lambda>s. segment_outcome export asr_pipeline s = Inr None)
                         (extract_audio_segments audio df))
             + length (filter (\<lambda>s. isl (segment_outcome export asr_pipeline s))
                         (extract_audio_segments audio df))
           = length df"
proof -
  define rows where "rows = transcription_rows export asr_pipeline (extract_audio_segments audio df)"
  from perform_speech_recognition_result [OF assms(1), of audio export asr_pipeline execution_time
      output_csv_path] assms(2)
  have out: "out = sort_values_start_time rows"
    and rate: "rows \<noteq> [] \<longrightarrow> map_of m ''success_rate''
                   = Some (PyFloat (real (length rows) / real (length df)))"
    by (auto simp: rows_def)
  from out assms(3) have ne: "rows \<noteq> []" by simp
  from out have len: "length out = length rows" by simp
  from length_transcription_rows [of export asr_pipeline "extract_audio_segments audio df"]
  have "length rows
      + length (filter (\<lambda>s. segment_outcome export asr_pipeline s = Inr None)
                  (extract_audio_segments audio df))
      + length (filter (\<lambda>s. isl (segment_outcome export asr_pipeline s))
                  (extract_audio_segments audio df))
      = length df"
    by (simp add: rows_def)
  with rate ne len show ?thesis by simp
qed

theorem recognition_success_rate_witness:
  "(\<exists>m fs'. perform_speech_recognition Pair ex_export ex_asr_pipeline 2
              (ascii ''d.csv'') (ascii ''a.csv'') ex_fs = Inr ((ex_asr_rows, m), fs')
            \<and> map_of m ''success_rate'' = Some (PyFloat (2 / 4)))
   \<and> length ex_asr_rows = 2 \<and> length ex_diarization = 4
   \<and> length (filter (\<lambda>s. segment_outcome ex_export ex_asr_pipeline s = Inr None)
               (extract_audio_segments Pair ex_diarization)) = 1
   \<and> length (filter (\<lambda>s. isl (segment_outcome ex_export ex_asr_pipeline s))
               (extract_audio_segments Pair ex_diarization)) = 1"
proof -
  from ex_run obtain m fs' where run:
    "perform_speech_recognition Pair ex_export ex_asr_pipeline 2
       (ascii ''d.csv'') (ascii ''a.csv'') ex_fs = Inr ((ex_asr_rows, m), fs')"
    by blast
  have ne: "ex_asr_rows \<noteq> []" and len: "length ex_asr_rows = 2" "length ex_diarization = 4"
    by (simp_all add: ex_asr_rows_def ex_diarization_def)
  have nospeech: "length (filter (\<lambda>s. segment_outcome ex_export ex_asr_pipeline s = Inr None)
               (extract_audio_segments Pair ex_diarization))
      = length (filter (\<lambda>x. x = Inr None)
          (map (segment_outcome ex_export ex_asr_pipeline) (extract_audio_segments Pair ex_diarization)))"
    by (simp add: filter_map comp_def)
  have raised: "length (filter (\<lambda>s. isl (segment_outcome ex_export ex_asr_pipeline s))
               (extract_audio_segments Pair ex_diarization))
      = length (filter isl
          (map (segment_outcome ex_export ex_asr_pipeline) (extract_audio_segments Pair ex_diarization)))"
    by (simp add: filter_map comp_def)
  have counts: "length (filter (\<lambda>s. segment_outcome ex_export ex_asr_pipeline s = Inr None)
               (extract_audio_segments Pair ex_diarization)) = 1"
     "length (filter (\<lambda>s. isl (segment_outcome ex_export ex_asr_pipeline s))
               (extract_audio_segments Pair ex_diarization)) = 1"
    unfolding nospeech raised ex_outcomes by simp_all
  from recognition_success_rate [OF ex_read run ne] have
    "map_of m ''success_rate'' = Some (PyFloat (2 / 4))"
    by (simp add: len)
  with run len counts show ?thesis by blast
qed






section \<open>Properties of the correction stage\<close>









lemma assign_corrected_text_map [simp]:
  "length (assign_corrected_text df (map f df)) = length df"
  "assign_corrected_text df (map f df) = [] \<longleftrightarrow> df = []"
  by (simp_all add: assign_corrected_text_def)




section \<open>Properties of the summarization stage\<close>








lemma speaker_speaker_summary [simp]:
  "speaker (speaker_summary summarization_model g) = fst g"
  "original_text_length (speaker_summary summarization_model g) = length (snd g)"
  "summary (speaker_summary summarization_model g)
     = fst (summarize_text summarization_model (processed_text (snd g)))"
  "summary_length (speaker_summary summarization_model g)
     = length (fst (summarize_text summarization_model (processed_text (snd g))))"
  "compression_ratio (speaker_summary summarization_model g)
     = (if length (snd g) > 0
        then real (length (fst (summarize_text summarization_model (processed_text (snd g)))))
               / real (length (snd g))
        else 0)"
  by (simp_all add: speaker_summary_def Let_def)













section \<open>Properties of the pipeline driver\<close>

lemma ascii_eq_iff [simp]: "ascii a = ascii b \<longleftrightarrow> a = b"
proof -
  have "inj (of_char :: char \<Rightarrow> nat)" by (rule injI) simp
  then show ?thesis unfolding ascii_def by (rule inj_map_eq_map)
qed
















end
